theory Spec2Isabelle
  imports Complex_Main "HOL-Library.Word"
begin

section \<open>Job options and backoff policies (config.go, backoff.go)\<close>

text \<open>
  \<^verbatim>\<open>time.Duration\<close> is an \<^verbatim>\<open>int64\<close> count of nanoseconds and \<^verbatim>\<open>time.Time\<close> an instant; both are
  modelled by \<open>int\<close>. The code never adds or multiplies durations as integers, so no integer
  arithmetic on them can leave the \<^verbatim>\<open>int64\<close> range. Go's \<^verbatim>\<open>int\<close> (attempt numbers,
  \<^verbatim>\<open>MaxRetries\<close>) is modelled by \<open>int\<close> as well: the only arithmetic on it is the loop counter
  \<^verbatim>\<open>attempt++\<close>, which stays in range for every \<^verbatim>\<open>MaxRetries\<close> below \<open>2^63 - 1\<close>.
\<close>

type_synonym duration = int
type_synonym time = int

text \<open>
  \<^verbatim>\<open>exponentialBackoff.Next\<close> computes in \<^verbatim>\<open>float64\<close>. The float64 type and the five
  operations the method uses are parameters of the model: \<open>'f\<close> is the type of float64 values,
  and a \<open>float64_ops\<close> record gives the conversion \<^verbatim>\<open>float64(x)\<close> of an integer, \<^verbatim>\<open>math.Pow\<close>,
  the product, the comparison \<^verbatim>\<open>>\<close> and the conversion \<^verbatim>\<open>time.Duration(x)\<close> back to an integer.
  Nothing is assumed about them.
\<close>

record 'f float64_ops =
  float64_of_int :: "int \<Rightarrow> 'f"
  math_Pow :: "'f \<Rightarrow> 'f \<Rightarrow> 'f"
  float64_mul :: "'f \<Rightarrow> 'f \<Rightarrow> 'f"
  float64_gt :: "'f \<Rightarrow> 'f \<Rightarrow> bool"
  duration_of_float64 :: "'f \<Rightarrow> duration"

text \<open>
  Exact arithmetic on the rationals, with \<open>math_Pow x y\<close> the power of \<open>x\<close> by the integer part
  of a non-negative \<open>y\<close> and the conversion to a duration truncating toward zero. It serves to
  evaluate closed examples whose float64 values are all small integers.
\<close>

definition exact_ops :: "rat float64_ops" where
  "exact_ops =
     \<lparr> float64_of_int = of_int,
       math_Pow = (\<lambda>x y. x ^ nat \<lfloor>y\<rfloor>),
       float64_mul = (\<lambda>x y. x * y),
       float64_gt = (\<lambda>x y. x > y),
       duration_of_float64 = (\<lambda>x. if x < 0 then \<lceil>x\<rceil> else \<lfloor>x\<rfloor>) \<rparr>"

text \<open>\<^verbatim>\<open>type BackoffStrategy string\<close> with its three named constants.\<close>

type_synonym BackoffStrategy = string

definition BackoffNone :: BackoffStrategy where
  "BackoffNone = ''none''"

definition BackoffFixed :: BackoffStrategy where
  "BackoffFixed = ''fixed''"

definition BackoffExponential :: BackoffStrategy where
  "BackoffExponential = ''exponential''"

record 'f JobOptions =
  MaxRetries :: int
  BackoffStrategy :: BackoffStrategy
  InitialBackoff :: duration
  MaxBackoff :: duration
  BackoffMultiplier :: 'f

text \<open>
  The \<^verbatim>\<open>Backoff\<close> interface. A value of the interface is the method \<^verbatim>\<open>Next\<close> of the struct
  behind it; \<^verbatim>\<open>Reset\<close> does nothing in all three implementations and is left out.
\<close>

record Backoff =
  Next :: "int \<Rightarrow> duration"

record fixedBackoff =
  interval :: duration

record 'f exponentialBackoff =
  initial :: duration
  max_b :: duration
  multiplier :: 'f

definition noBackoff_Next :: "int \<Rightarrow> duration" where
  "noBackoff_Next attempt = 0"

definition fixedBackoff_Next :: "fixedBackoff \<Rightarrow> int \<Rightarrow> duration" where
  "fixedBackoff_Next b attempt = interval b"

definition exponentialBackoff_Next ::
  "'f float64_ops \<Rightarrow> 'f exponentialBackoff \<Rightarrow> int \<Rightarrow> duration" where
  "exponentialBackoff_Next F b attempt =
     (if attempt \<le> 0 then initial b
      else
        let backoff =
              float64_mul F (float64_of_int F (initial b))
                (math_Pow F (multiplier b) (float64_of_int F (attempt - 1)))
        in if float64_gt F backoff (float64_of_int F (max_b b)) then max_b b
           else duration_of_float64 F backoff)"

definition NewBackoff :: "'f float64_ops \<Rightarrow> 'f JobOptions \<Rightarrow> Backoff" where
  "NewBackoff F opts =
     (if BackoffStrategy opts = BackoffFixed then
        \<lparr> Next = fixedBackoff_Next \<lparr> interval = InitialBackoff opts \<rparr> \<rparr>
      else if BackoffStrategy opts = BackoffExponential then
        \<lparr> Next = exponentialBackoff_Next F
            \<lparr> initial = InitialBackoff opts, max_b = MaxBackoff opts,
              multiplier = BackoffMultiplier opts \<rparr> \<rparr>
      else \<lparr> Next = noBackoff_Next \<rparr>)"

section \<open>The retry executor (backoff.go)\<close>

text \<open>
  An operation \<^verbatim>\<open>func() error\<close> is a closure over state of its own: it is a function from that
  state to an outcome and the new state. It returns \<^verbatim>\<open>nil\<close> (\<open>Return None\<close>), returns an error
  (\<open>Return (Some e)\<close>) or panics with a payload.
\<close>

datatype ('e, 'p) outcome = Return "'e option" | Panic 'p

type_synonym ('s, 'e, 'p) operation = "'s \<Rightarrow> ('e, 'p) outcome \<times> 's"

text \<open>
  What an execution does besides changing the state is recorded as a list of events, in order:
  a call of the operation with its outcome, a call of \<^verbatim>\<open>backoff.Next\<close> with its argument and
  result, a call of the \<^verbatim>\<open>onRetry\<close> callback with its arguments, and a \<^verbatim>\<open>time.Sleep\<close>.
\<close>

datatype ('e, 'p) event =
    Invoke "('e, 'p) outcome"
  | BackoffNext int duration
  | OnRetry int "'e option" duration
  | Sleep duration

record 'f RetryExecutor =
  options :: "'f JobOptions"
  backoff :: Backoff

definition NewRetryExecutor :: "'f float64_ops \<Rightarrow> 'f JobOptions \<Rightarrow> 'f RetryExecutor" where
  "NewRetryExecutor F opts = \<lparr> options = opts, backoff = NewBackoff F opts \<rparr>"

text \<open>The statement \<^verbatim>\<open>if backoffDuration > 0 { time.Sleep(backoffDuration) }\<close>.\<close>

definition sleep_if_positive :: "duration \<Rightarrow> ('e, 'p) event list" where
  "sleep_if_positive d = (if d > 0 then [Sleep d] else [])"

text \<open>The events of \<^verbatim>\<open>Execute\<close>'s loop body before the operation is called.\<close>

definition Execute_wait :: "'f RetryExecutor \<Rightarrow> int \<Rightarrow> ('e, 'p) event list" where
  "Execute_wait r attempt =
     (if attempt > 0 then
        let backoffDuration = Next (backoff r) attempt
        in BackoffNext attempt backoffDuration # sleep_if_positive backoffDuration
      else [])"

text \<open>
  The loop of \<^verbatim>\<open>Execute\<close> from the iteration \<open>attempt\<close> on, with the current \<^verbatim>\<open>lastErr\<close>. A panic
  of the operation leaves the loop and the function at once: \<^verbatim>\<open>Execute\<close> defers nothing.
\<close>

function Execute_loop ::
  "'f RetryExecutor \<Rightarrow> ('s, 'e, 'p) operation \<Rightarrow> int \<Rightarrow> 'e option \<Rightarrow> 's \<Rightarrow>
     ('e, 'p) outcome \<times> 's \<times> ('e, 'p) event list" where
  "Execute_loop r fn attempt lastErr s =
     (if attempt \<le> MaxRetries (options r) then
        (case fn s of
           (Panic p, s') \<Rightarrow> (Panic p, s', Execute_wait r attempt @ [Invoke (Panic p)])
         | (Return None, s') \<Rightarrow> (Return None, s', Execute_wait r attempt @ [Invoke (Return None)])
         | (Return (Some e), s') \<Rightarrow>
             (case Execute_loop r fn (attempt + 1) (Some e) s' of
                (res, s'', tr) \<Rightarrow>
                  (res, s'', Execute_wait r attempt @ Invoke (Return (Some e)) # tr)))
      else (Return lastErr, s, []))"
  by pat_completeness auto
termination
  by (relation "measure (\<lambda>(r, fn, attempt, lastErr, s). nat (MaxRetries (options r) + 1 - attempt))")
    auto

declare Execute_loop.simps [simp del]

definition Execute ::
  "'f RetryExecutor \<Rightarrow> ('s, 'e, 'p) operation \<Rightarrow> 's \<Rightarrow>
     ('e, 'p) outcome \<times> 's \<times> ('e, 'p) event list" where
  "Execute r fn s =
     (if MaxRetries (options r) \<le> 0 \<or> BackoffStrategy (options r) = BackoffNone then
        (case fn s of (res, s') \<Rightarrow> (res, s', [Invoke res]))
      else Execute_loop r fn 0 None s)"

text \<open>
  \<^verbatim>\<open>ExecuteWithCallback\<close>. The callback \<^verbatim>\<open>onRetry\<close> may be \<^verbatim>\<open>nil\<close> (\<open>None\<close>); when present it is
  called with the attempt, the last error and the delay, and acts on the state.
\<close>

type_synonym ('s, 'e) callback = "int \<Rightarrow> 'e option \<Rightarrow> duration \<Rightarrow> 's \<Rightarrow> 's"

definition ExecuteWithCallback_wait ::
  "'f RetryExecutor \<Rightarrow> ('s, 'e) callback option \<Rightarrow> int \<Rightarrow> 'e option \<Rightarrow> 's \<Rightarrow>
     's \<times> ('e, 'p) event list" where
  "ExecuteWithCallback_wait r onRetry attempt lastErr s =
     (if attempt > 0 then
        let backoffDuration = Next (backoff r) attempt
        in (case onRetry of
              None \<Rightarrow> (s, BackoffNext attempt backoffDuration # sleep_if_positive backoffDuration)
            | Some cb \<Rightarrow>
                (cb attempt lastErr backoffDuration s,
                 BackoffNext attempt backoffDuration # OnRetry attempt lastErr backoffDuration #
                   sleep_if_positive backoffDuration))
      else (s, []))"

function ExecuteWithCallback_loop ::
  "'f RetryExecutor \<Rightarrow> ('s, 'e, 'p) operation \<Rightarrow> ('s, 'e) callback option \<Rightarrow> int \<Rightarrow>
     'e option \<Rightarrow> 's \<Rightarrow> ('e, 'p) outcome \<times> 's \<times> ('e, 'p) event list" where
  "ExecuteWithCallback_loop r fn onRetry attempt lastErr s =
     (if attempt \<le> MaxRetries (options r) then
        (case ExecuteWithCallback_wait r onRetry attempt lastErr s of
           (s1, pre) \<Rightarrow>
             (case fn s1 of
                (Panic p, s') \<Rightarrow> (Panic p, s', pre @ [Invoke (Panic p)])
              | (Return None, s') \<Rightarrow> (Return None, s', pre @ [Invoke (Return None)])
              | (Return (Some e), s') \<Rightarrow>
                  (case ExecuteWithCallback_loop r fn onRetry (attempt + 1) (Some e) s' of
                     (res, s'', tr) \<Rightarrow> (res, s'', pre @ Invoke (Return (Some e)) # tr))))
      else (Return lastErr, s, []))"
  by pat_completeness auto
termination
  by (relation
      "measure (\<lambda>(r, fn, onRetry, attempt, lastErr, s). nat (MaxRetries (options r) + 1 - attempt))")
    auto

declare ExecuteWithCallback_loop.simps [simp del]

definition ExecuteWithCallback ::
  "'f RetryExecutor \<Rightarrow> ('s, 'e, 'p) operation \<Rightarrow> ('s, 'e) callback option \<Rightarrow> 's \<Rightarrow>
     ('e, 'p) outcome \<times> 's \<times> ('e, 'p) event list" where
  "ExecuteWithCallback r fn onRetry s =
     (if MaxRetries (options r) \<le> 0 \<or> BackoffStrategy (options r) = BackoffNone then
        (case fn s of (res, s') \<Rightarrow> (res, s', [Invoke res]))
      else ExecuteWithCallback_loop r fn onRetry 0 None s)"

text \<open>The outcomes of the operation's calls in a list of events, in order.\<close>

fun invocations :: "('e, 'p) event list \<Rightarrow> ('e, 'p) outcome list" where
  "invocations [] = []"
| "invocations (Invoke res # tr) = res # invocations tr"
| "invocations (ev # tr) = invocations tr"


fun is_error :: "('e, 'p) outcome \<Rightarrow> bool" where
  "is_error (Return (Some e)) = True"
| "is_error other = False"

section \<open>Job entries and the scheduler (job.go, config.go, scheduler.go)\<close>

record MiddlewareConfig =
  Logging :: bool
  Recovery :: bool
  Metrics :: bool

record 'f Config =
  Timezone :: string
  WithSeconds :: bool
  JobTimeout :: duration
  SkipIfStillRunning :: bool
  Middleware :: MiddlewareConfig
  DefaultJobOptions :: "'f JobOptions"

text \<open>
  \<^verbatim>\<open>JobID\<close> is \<^verbatim>\<open>cron.EntryID\<close>, an \<^verbatim>\<open>int\<close>. The errors of the scheduler are a value returned by
  the user's job (\<open>JobError\<close>, with its message), \<^verbatim>\<open>fmt.Errorf("job panicked: %v", r)\<close>
  (\<open>JobPanicked r\<close>) and \<^verbatim>\<open>fmt.Errorf("job %d not found", id)\<close> (\<open>JobNotFound id\<close>). The payload of
  a panic is modelled by its rendering under \<^verbatim>\<open>%v\<close>.
\<close>

type_synonym JobID = int
type_synonym panic_value = string

datatype error = JobError string | JobPanicked panic_value | JobNotFound JobID

text \<open>A \<^verbatim>\<open>JobFunc\<close>, and the \<^verbatim>\<open>Run\<close> method of a \<^verbatim>\<open>Job\<close>, act on the state \<open>'u\<close> of the user's code.\<close>

type_synonym 'u JobFunc = "('u, error, panic_value) operation"

text \<open>
  \<^verbatim>\<open>jobEntry\<close>. The fields \<^verbatim>\<open>id\<close>, \<^verbatim>\<open>fn\<close> and \<^verbatim>\<open>options\<close> carry the suffix \<open>_e\<close>; \<^verbatim>\<open>job\<close> and \<^verbatim>\<open>fn\<close>
  may be \<^verbatim>\<open>nil\<close> (\<open>None\<close>). The counters are \<^verbatim>\<open>int64\<close>.
\<close>

record ('u, 'f) jobEntry =
  id_e :: JobID
  name :: string
  spec :: string
  job :: "'u JobFunc option"
  fn_e :: "'u JobFunc option"
  options_e :: "'f JobOptions"
  runCount :: "64 word"
  failCount :: "64 word"
  running :: bool
  lastRun :: time

datatype log_level = DEBUG | INFO | WARN | ERROR

type_synonym log_entry = "log_level \<times> string"

text \<open>
  The state the scheduler's methods act on. \<open>config\<close>, \<open>logger\<close>, \<open>pool\<close>, \<open>jobs\<close> and \<open>running_s\<close>
  are the fields of the \<^verbatim>\<open>Scheduler\<close> struct (\<^verbatim>\<open>running\<close> with a suffix); \<open>cron_running\<close> tells
  whether the cron engine behind the field \<^verbatim>\<open>cron\<close> has been started. The logger is the list of
  the calls it received, each with its level and message (the key/value fields are left out).
  \<^verbatim>\<open>jobs\<close> maps an id to a pointer \<^verbatim>\<open>*jobEntry\<close>; \<open>heap\<close> is the store these pointers address, so
  that a closure holding a pointer still reaches its entry after \<^verbatim>\<open>RemoveJob\<close>. \<open>user\<close> is the
  state of the user's job code.
\<close>

type_synonym entry_ptr = nat

record ('u, 'f) world =
  config :: "'f Config"
  logger :: "log_entry list"
  pool :: "entry_ptr list"
  jobs :: "JobID \<rightharpoonup> entry_ptr"
  running_s :: bool
  cron_running :: bool
  heap :: "entry_ptr \<Rightarrow> ('u, 'f) jobEntry"
  user :: 'u

definition logger_call :: "log_level \<Rightarrow> string \<Rightarrow> ('u, 'f) world \<Rightarrow> ('u, 'f) world" where
  "logger_call lvl msg s = s\<lparr> logger := logger s @ [(lvl, msg)] \<rparr>"

definition update_entry ::
  "entry_ptr \<Rightarrow> (('u, 'f) jobEntry \<Rightarrow> ('u, 'f) jobEntry) \<Rightarrow> ('u, 'f) world \<Rightarrow> ('u, 'f) world" where
  "update_entry p f s = s\<lparr> heap := (heap s)(p := f (heap s p)) \<rparr>"

subsection \<open>The execution wrapper \<^verbatim>\<open>wrapJob\<close>\<close>

text \<open>A call of the user's code from the scheduler changes the user's state only.\<close>

definition call_user :: "'u JobFunc \<Rightarrow> (('u, 'f) world, error, panic_value) operation" where
  "call_user f s = (case f (user s) of (res, u') \<Rightarrow> (res, s\<lparr> user := u' \<rparr>))"

text \<open>The operation \<^verbatim>\<open>wrapJob\<close> hands to the retry executor (lines 214 to 222).\<close>

definition job_operation :: "entry_ptr \<Rightarrow> (('u, 'f) world, error, panic_value) operation" where
  "job_operation entry s =
     (case job (heap s entry) of
        Some run \<Rightarrow> call_user run s
      | None \<Rightarrow>
          (case fn_e (heap s entry) of
             Some f \<Rightarrow> call_user f s
           | None \<Rightarrow> (Return None, s)))"

text \<open>The retry callback (lines 223 to 231): a warning in the log.\<close>

definition retry_callback :: "(('u, 'f) world, error) callback" where
  "retry_callback attempt err d s = logger_call WARN ''job retry'' s"

text \<open>
  The deferred recovery (lines 198 to 209), run first when the wrapper exits. Given the outcome
  of \<^verbatim>\<open>ExecuteWithCallback\<close> it yields the value of \<^verbatim>\<open>jobErr\<close>, the state, and the panic that goes
  on unwinding, if any. Without recovery a panic leaves \<^verbatim>\<open>jobErr\<close> at \<^verbatim>\<open>nil\<close>, since the
  assignment of line 213 never happens.
\<close>

definition deferred_recover ::
  "(error, panic_value) outcome \<Rightarrow> ('u, 'f) world \<Rightarrow>
     error option \<times> ('u, 'f) world \<times> panic_value option" where
  "deferred_recover res s =
     (case res of
        Return jobErr \<Rightarrow> (jobErr, s, None)
      | Panic r \<Rightarrow>
          if Recovery (Middleware (config s)) then
            (Some (JobPanicked r), logger_call ERROR ''job panicked'' s, None)
          else (None, s, Some r))"

text \<open>The deferred statistics and logging (lines 169 to 195), run second.\<close>

definition deferred_stats :: "entry_ptr \<Rightarrow> error option \<Rightarrow> ('u, 'f) world \<Rightarrow> ('u, 'f) world" where
  "deferred_stats entry jobErr s =
     (let s1 = update_entry entry (\<lambda>e. e\<lparr> runCount := runCount e + 1 \<rparr>) s;
          s2 = (if jobErr \<noteq> None
                then update_entry entry (\<lambda>e. e\<lparr> failCount := failCount e + 1 \<rparr>) s1
                else s1)
      in if Logging (Middleware (config s2)) then
           (if jobErr \<noteq> None then logger_call ERROR ''job failed'' s2
            else logger_call INFO ''job completed'' s2)
         else s2)"

text \<open>
  The start of an execution that is not skipped (lines 152 to 163): the flag is set, \<^verbatim>\<open>lastRun\<close>
  takes \<open>now\<close>, the reading of \<^verbatim>\<open>time.Now()\<close> at line 155, and the start is logged.
\<close>

definition wrapJob_start :: "entry_ptr \<Rightarrow> time \<Rightarrow> ('u, 'f) world \<Rightarrow> ('u, 'f) world" where
  "wrapJob_start entry now s =
     (let s1 = update_entry entry (\<lambda>e. e\<lparr> running := True \<rparr>) s;
          s2 = update_entry entry (\<lambda>e. e\<lparr> lastRun := now \<rparr>) s1
      in if Logging (Middleware (config s2)) then logger_call INFO ''job started'' s2 else s2)"

text \<open>The execution with retries (lines 212 to 232).\<close>

definition wrapJob_execute ::
  "'f float64_ops \<Rightarrow> entry_ptr \<Rightarrow> ('u, 'f) world \<Rightarrow>
     (error, panic_value) outcome \<times> ('u, 'f) world \<times> (error, panic_value) event list" where
  "wrapJob_execute F entry s =
     (let executor = NewRetryExecutor F (options_e (heap s entry))
      in ExecuteWithCallback executor (job_operation entry) (Some retry_callback) s)"

text \<open>
  One run of the function that \<^verbatim>\<open>wrapJob(entry)\<close> returns, from start to end: the skip check,
  the start, the execution, then the deferred functions in the reverse order of their
  \<^verbatim>\<open>defer\<close> statements, the last being \<^verbatim>\<open>entry.running.Store(false)\<close>. The result is the state,
  the events of the retry executor, and the panic that leaves the wrapper, if any.
\<close>

definition wrapJob ::
  "'f float64_ops \<Rightarrow> entry_ptr \<Rightarrow> time \<Rightarrow> ('u, 'f) world \<Rightarrow>
     ('u, 'f) world \<times> (error, panic_value) event list \<times> panic_value option" where
  "wrapJob F entry now s =
     (if SkipIfStillRunning (config s) \<and> running (heap s entry) then
        (logger_call DEBUG ''job skipped, still running'' s, [], None)
      else
        (case wrapJob_execute F entry (wrapJob_start entry now s) of
           (res, s4, tr) \<Rightarrow>
             (case deferred_recover res s4 of
                (jobErr, s5, unwinding) \<Rightarrow>
                  let s6 = deferred_stats entry jobErr s5;
                      s7 = update_entry entry (\<lambda>e. e\<lparr> running := False \<rparr>) s6
                  in (s7, tr, unwinding))))"

subsection \<open>Lifecycle and \<^verbatim>\<open>RunNow\<close>\<close>

definition Start :: "('u, 'f) world \<Rightarrow> ('u, 'f) world" where
  "Start s =
     (if running_s s then s
      else logger_call INFO ''scheduler started''
             (s\<lparr> cron_running := True, running_s := True \<rparr>))"

text \<open>\<^verbatim>\<open>Stop\<close>; the context it returns is not modelled.\<close>

definition Stop :: "('u, 'f) world \<Rightarrow> ('u, 'f) world" where
  "Stop s =
     (if \<not> running_s s then s
      else logger_call INFO ''scheduler stopped''
             (s\<lparr> cron_running := False, running_s := False \<rparr>))"

definition IsRunning :: "('u, 'f) world \<Rightarrow> bool" where
  "IsRunning s = running_s s"

text \<open>
  Modelled from the spec: \<^verbatim>\<open>conc.Pool.Submit\<close> (the package \<^verbatim>\<open>pkg/conc\<close> is not among the
  sources). The Task Executor "accepts a zero-argument unit of work and runs it asynchronously on
  a bounded pool". The only unit of work the scheduler submits is the closure of \<^verbatim>\<open>RunNow\<close>, which
  calls \<^verbatim>\<open>s.wrapJob(entry).Run()\<close>; it is represented by the pointer \<^verbatim>\<open>entry\<close> it holds, and the
  pool by the list of the submitted units that have not run yet. \<open>run_submitted\<close> is a worker of
  the pool running the oldest of them.
\<close>

definition Submit :: "entry_ptr \<Rightarrow> ('u, 'f) world \<Rightarrow> ('u, 'f) world" where
  "Submit task s = s\<lparr> pool := pool s @ [task] \<rparr>"

definition run_submitted ::
  "'f float64_ops \<Rightarrow> time \<Rightarrow> ('u, 'f) world \<Rightarrow>
     ('u, 'f) world \<times> (error, panic_value) event list \<times> panic_value option" where
  "run_submitted F now s =
     (case pool s of
        [] \<Rightarrow> (s, [], None)
      | task # rest \<Rightarrow> wrapJob F task now (s\<lparr> pool := rest \<rparr>))"

definition RunNow :: "JobID \<Rightarrow> ('u, 'f) world \<Rightarrow> error option \<times> ('u, 'f) world" where
  "RunNow jid s =
     (case jobs s jid of
        None \<Rightarrow> (Some (JobNotFound jid), s)
      | Some entry \<Rightarrow> (None, Submit entry s))"

subsection \<open>Concurrent firings of one job\<close>

text \<open>
  The cron engine and the pool run \<^verbatim>\<open>wrapJob(entry)\<close> for one entry from several goroutines. What
  they share is the flag \<^verbatim>\<open>entry.running\<close>, an \<^verbatim>\<open>atomic.Bool\<close>, and each firing touches it in
  three atomic steps: the check of line 144 (\<^verbatim>\<open>s.config.SkipIfStillRunning && entry.IsRunning()\<close>),
  which drops the firing or lets it pass; \<^verbatim>\<open>entry.running.Store(true)\<close> of line 152; and the
  deferred \<^verbatim>\<open>entry.running.Store(false)\<close> of line 153, once the execution with all its retries
  has ended. A firing is \<open>Ready\<close> before its check, \<open>Checked\<close> between the check and the first
  store, \<open>Executing\<close> between the two stores, and \<open>Finished\<close> or \<open>Skipped\<close> at its end. A schedule
  is the list of the firings that take their next step, in order.
\<close>

datatype phase = Ready | Checked | Executing | Finished | Skipped

record firings =
  running_flag :: bool
  phases :: "phase list"

definition step :: "bool \<Rightarrow> firings \<Rightarrow> nat \<Rightarrow> firings" where
  "step skipIfStillRunning c t =
     (if t < length (phases c) then
        (case phases c ! t of
           Ready \<Rightarrow>
             if skipIfStillRunning \<and> running_flag c
             then c\<lparr> phases := (phases c)[t := Skipped] \<rparr>
             else c\<lparr> phases := (phases c)[t := Checked] \<rparr>
         | Checked \<Rightarrow> c\<lparr> running_flag := True, phases := (phases c)[t := Executing] \<rparr>
         | Executing \<Rightarrow> c\<lparr> running_flag := False, phases := (phases c)[t := Finished] \<rparr>
         | Finished \<Rightarrow> c
         | Skipped \<Rightarrow> c)
      else c)"

fun run :: "bool \<Rightarrow> firings \<Rightarrow> nat list \<Rightarrow> firings" where
  "run skipIfStillRunning c [] = c"
| "run skipIfStillRunning c (t # schedule) =
     run skipIfStillRunning (step skipIfStillRunning c t) schedule"

definition initial_firings :: "nat \<Rightarrow> firings" where
  "initial_firings n = \<lparr> running_flag = False, phases = replicate n Ready \<rparr>"



section \<open>Concrete operations, options and states\<close>

text \<open>
  An operation that counts its calls and fails on the first two (as in \<^verbatim>\<open>TestJobWithRetry\<close>),
  one that always fails, and a job that panics (as in \<^verbatim>\<open>TestPanicRecovery\<close>); then the
  options of \<^verbatim>\<open>TestJobWithRetry\<close> with \<open>n\<close> retries, a fixed backoff of 10 ms.
\<close>

definition fails_twice :: "(nat, error, panic_value) operation" where
  "fails_twice calls =
     (if calls < 2 then Return (Some (JobError ''simulated error'')) else Return None, calls + 1)"

definition always_fails :: "(nat, error, panic_value) operation" where
  "always_fails calls = (Return (Some (JobError ''simulated error'')), calls + 1)"

definition panics :: "(nat, error, panic_value) operation" where
  "panics calls = (Panic ''test panic'', calls + 1)"

definition fixed_options :: "int \<Rightarrow> rat JobOptions" where
  "fixed_options n =
     \<lparr> MaxRetries = n, BackoffStrategy = BackoffFixed, InitialBackoff = 10000000,
       MaxBackoff = 100000000, BackoffMultiplier = 2 \<rparr>"

definition example_config :: "bool \<Rightarrow> rat Config" where
  "example_config skip =
     \<lparr> Timezone = ''Asia/Shanghai'', WithSeconds = True, JobTimeout = 0,
       SkipIfStillRunning = skip,
       Middleware = \<lparr> Logging = False, Recovery = True, Metrics = False \<rparr>,
       DefaultJobOptions = fixed_options 0 \<rparr>"

definition example_entry :: "nat JobFunc \<Rightarrow> rat JobOptions \<Rightarrow> bool \<Rightarrow> (nat, rat) jobEntry" where
  "example_entry f opts busy =
     \<lparr> id_e = 1, name = ''job'', spec = ''* * * * * *'', job = None, fn_e = Some f,
       options_e = opts, runCount = 0, failCount = 0, running = busy, lastRun = 0 \<rparr>"

text \<open>A running scheduler with one job, of id 1, whose entry is at the address 0.\<close>

definition example_world :: "bool \<Rightarrow> (nat, rat) jobEntry \<Rightarrow> (nat, rat) world" where
  "example_world skip e =
     \<lparr> config = example_config skip, logger = [], pool = [], jobs = [1 \<mapsto> 0],
       running_s = True, cron_running = True, heap = (\<lambda>p. e), user = 0 \<rparr>"

definition panics_first :: "(nat, error, panic_value) operation" where
  "panics_first calls = (if calls < 1 then Panic ''test panic'' else Return None, calls + 1)"

definition fails_first :: "(nat, error, panic_value) operation" where
  "fails_first calls =
     (if calls < 1 then Return (Some (JobError ''simulated error'')) else Return None, calls + 1)"

text \<open>
  States of that scheduler: the job is running and firings are skipped; the job is idle; the
  job is running and firings are not skipped; and three idle ones whose job panics at every
  call, panics at its first call only, and returns an error at its first call only, each with
  three retries.
\<close>

definition busy_world :: "(nat, rat) world" where
  "busy_world = example_world True (example_entry always_fails (fixed_options 3) True)"

definition idle_world :: "(nat, rat) world" where
  "idle_world = example_world True (example_entry always_fails (fixed_options 0) False)"

definition busy_world_no_skip :: "(nat, rat) world" where
  "busy_world_no_skip = example_world False (example_entry always_fails (fixed_options 0) True)"

definition panicking_world :: "(nat, rat) world" where
  "panicking_world = example_world False (example_entry panics (fixed_options 3) False)"

definition panics_first_world :: "(nat, rat) world" where
  "panics_first_world = example_world False (example_entry panics_first (fixed_options 3) False)"

definition fails_first_world :: "(nat, rat) world" where
  "fails_first_world = example_world False (example_entry fails_first (fixed_options 3) False)"

text \<open>An exponential backoff whose cap is below its initial delay.\<close>

definition capped_below_initial :: "rat exponentialBackoff" where
  "capped_below_initial = \<lparr> initial = 10, max_b = 5, multiplier = 2 \<rparr>"

section \<open>Properties of the retry executor\<close>


lemma ExecuteWithCallback_wait_no_invocations:
  "ExecuteWithCallback_wait r onRetry attempt lastErr s = (s1, pre) \<Longrightarrow>
     invocations (pre @ tr) = invocations tr"
  by (auto simp: ExecuteWithCallback_wait_def sleep_if_positive_def Let_def
      split: if_splits option.splits)

lemma ExecuteWithCallback_wait_None:
  "ExecuteWithCallback_wait r None attempt lastErr s = (s, Execute_wait r attempt)"
  by (simp add: ExecuteWithCallback_wait_def Execute_wait_def Let_def)

lemma ExecuteWithCallback_loop_None:
  "ExecuteWithCallback_loop r fn None attempt lastErr s = Execute_loop r fn attempt lastErr s"
proof (induction r fn attempt lastErr s rule: Execute_loop.induct)
  case (1 r fn attempt lastErr s)
  note unfold = ExecuteWithCallback_loop.simps [of r fn None attempt lastErr s]
    Execute_loop.simps [of r fn attempt lastErr s]
  show ?case
  proof (cases "attempt \<le> MaxRetries (options r)")
    case False
    then show ?thesis by (simp add: unfold)
  next
    case True
    obtain res s' where fn: "fn s = (res, s')" by (cases "fn s")
    show ?thesis
    proof (cases res)
      case (Panic p)
      with True fn show ?thesis
        by (simp add: unfold ExecuteWithCallback_wait_None)
    next
      case (Return x)
      show ?thesis
      proof (cases x)
        case None
        with True fn Return show ?thesis
          by (simp add: unfold ExecuteWithCallback_wait_None)
      next
        case (Some e)
        have fn': "(Return (Some e), s') = fn s"
          using fn Return Some by simp
        have "ExecuteWithCallback_loop r fn None (attempt + 1) (Some e) s' =
              Execute_loop r fn (attempt + 1) (Some e) s'"
          by (rule "1.IH" [OF True fn' refl refl])
        with True fn Return Some show ?thesis
          by (simp add: unfold ExecuteWithCallback_wait_None)
      qed
    qed
  qed
qed

lemma ExecuteWithCallback_loop_attempts:
  "attempt \<le> MaxRetries (options r) \<Longrightarrow>
   ExecuteWithCallback_loop r (fn :: ('s, 'e, 'p) operation) onRetry attempt lastErr s =
     (res, s', tr) \<Longrightarrow>
     invocations tr \<noteq> [] \<and>
     int (length (invocations tr)) \<le> MaxRetries (options r) + 1 - attempt \<and>
     (\<forall>x \<in> set (butlast (invocations tr)). is_error x) \<and>
     res = last (invocations tr) \<and>
     (is_error (last (invocations tr)) \<longrightarrow>
        int (length (invocations tr)) = MaxRetries (options r) + 1 - attempt)"
proof (induction r fn onRetry attempt lastErr s arbitrary: res s' tr
    rule: ExecuteWithCallback_loop.induct)
  case (1 r fn onRetry attempt lastErr s)
  note le = \<open>attempt \<le> MaxRetries (options r)\<close>
  obtain s1 and pre :: "('e, 'p) event list"
    where w: "ExecuteWithCallback_wait r onRetry attempt lastErr s = (s1, pre)"
    by (cases "ExecuteWithCallback_wait r onRetry attempt lastErr s :: 's \<times> ('e, 'p) event list")
  have pre: "\<And>xs. invocations (pre @ xs) = invocations xs"
    using ExecuteWithCallback_wait_no_invocations [OF w] .
  obtain out s2 where fn: "fn s1 = (out, s2)" by (cases "fn s1")
  note unfold = ExecuteWithCallback_loop.simps [of r fn onRetry attempt lastErr s]
  show ?case
  proof (cases out)
    case (Panic p)
    with "1.prems" w fn have "tr = pre @ [Invoke (Panic p)]" "res = Panic p"
      by (auto simp: unfold)
    then show ?thesis using le by (simp add: pre)
  next
    case (Return x)
    show ?thesis
    proof (cases x)
      case None
      with "1.prems" w fn Return have "tr = pre @ [Invoke (Return None)]" "res = Return None"
        by (auto simp: unfold)
      then show ?thesis using le by (simp add: pre)
    next
      case (Some e)
      obtain res2 s3 tr2 where
        rec: "ExecuteWithCallback_loop r fn onRetry (attempt + 1) (Some e) s2 = (res2, s3, tr2)"
        by (cases "ExecuteWithCallback_loop r fn onRetry (attempt + 1) (Some e) s2")
      from "1.prems" w fn Return Some rec
      have tr: "tr = pre @ Invoke (Return (Some e)) # tr2" and res: "res = res2"
        by (auto simp: unfold)
      have inv: "invocations tr = Return (Some e) # invocations tr2"
        by (simp add: tr pre)
      show ?thesis
      proof (cases "attempt + 1 \<le> MaxRetries (options r)")
        case False
        with rec have "tr2 = []" "res2 = Return (Some e)"
          by (auto simp: ExecuteWithCallback_loop.simps [of r fn onRetry "attempt + 1"])
        with inv res le False show ?thesis by simp
      next
        case True
        have IH: "invocations tr2 \<noteq> [] \<and>
            int (length (invocations tr2)) \<le> MaxRetries (options r) + 1 - (attempt + 1) \<and>
            (\<forall>x \<in> set (butlast (invocations tr2)). is_error x) \<and>
            res2 = last (invocations tr2) \<and>
            (is_error (last (invocations tr2)) \<longrightarrow>
               int (length (invocations tr2)) = MaxRetries (options r) + 1 - (attempt + 1))"
        proof -
          have fn': "(Return (Some e), s2) = fn s1"
            using fn Return Some by simp
          show ?thesis
            by (rule "1.IH" [OF le w [symmetric] fn' refl refl True rec])
        qed
        then show ?thesis using inv res by auto
      qed
    qed
  qed
qed





lemma ExecuteWithCallback_loop_last_event:
  "attempt \<le> MaxRetries (options r) \<Longrightarrow>
   ExecuteWithCallback_loop r (fn :: ('s, 'e, 'p) operation) onRetry attempt lastErr s =
     (res, s', tr) \<Longrightarrow>
     tr \<noteq> [] \<and> last tr = Invoke res"
proof (induction r fn onRetry attempt lastErr s arbitrary: res s' tr
    rule: ExecuteWithCallback_loop.induct)
  case (1 r fn onRetry attempt lastErr s)
  note le = \<open>attempt \<le> MaxRetries (options r)\<close>
  note unfold = ExecuteWithCallback_loop.simps [of r fn onRetry attempt lastErr s]
  obtain s1 and pre :: "('e, 'p) event list"
    where w: "ExecuteWithCallback_wait r onRetry attempt lastErr s = (s1, pre)"
    by (cases "ExecuteWithCallback_wait r onRetry attempt lastErr s :: 's \<times> ('e, 'p) event list")
  obtain out s2 where fn: "fn s1 = (out, s2)" by (cases "fn s1")
  show ?case
  proof (cases out)
    case (Panic p)
    with "1.prems" w fn show ?thesis by (auto simp: unfold)
  next
    case (Return x)
    show ?thesis
    proof (cases x)
      case None
      with "1.prems" w fn Return show ?thesis by (auto simp: unfold)
    next
      case (Some e)
      obtain res2 s3 tr2 where
        rec: "ExecuteWithCallback_loop r fn onRetry (attempt + 1) (Some e) s2 = (res2, s3, tr2)"
        by (cases "ExecuteWithCallback_loop r fn onRetry (attempt + 1) (Some e) s2")
      from "1.prems" w fn Return Some rec
      have tr: "tr = pre @ Invoke (Return (Some e)) # tr2" and res: "res = res2"
        by (auto simp: unfold)
      show ?thesis
      proof (cases "attempt + 1 \<le> MaxRetries (options r)")
        case False
        with rec have "tr2 = []" "res2 = Return (Some e)"
          by (auto simp: ExecuteWithCallback_loop.simps [of r fn onRetry "attempt + 1"])
        with tr res show ?thesis by simp
      next
        case True
        have fn': "(Return (Some e), s2) = fn s1"
          using fn Return Some by simp
        have "tr2 \<noteq> [] \<and> last tr2 = Invoke res2"
          by (rule "1.IH" [OF le w [symmetric] fn' refl refl True rec])
        with tr res show ?thesis by simp
      qed
    qed
  qed
qed







text \<open>
  Claim C3. With \<^verbatim>\<open>MaxRetries <= 0\<close> or the strategy \<^verbatim>\<open>BackoffNone\<close>, \<^verbatim>\<open>Execute\<close> and
  \<^verbatim>\<open>ExecuteWithCallback\<close> return the outcome of one call of the operation and the state it
  leaves, and that call is their only event: no second call, no \<^verbatim>\<open>backoff.Next\<close>, no callback
  (which would also show in the state) and no sleep.
\<close>

theorem no_retry_runs_once:
  assumes "MaxRetries (options r) \<le> 0 \<or> BackoffStrategy (options r) = BackoffNone"
  shows "Execute r fn s = (fst (fn s), snd (fn s), [Invoke (fst (fn s))]) \<and>
         ExecuteWithCallback r fn onRetry s = (fst (fn s), snd (fn s), [Invoke (fst (fn s))])"
  using assms by (auto simp: Execute_def ExecuteWithCallback_def split: prod.splits)

theorem no_retry_runs_once_witness:
  "(MaxRetries (options (NewRetryExecutor exact_ops (fixed_options 0))) \<le> 0 \<or>
    BackoffStrategy (options (NewRetryExecutor exact_ops (fixed_options 0))) = BackoffNone) \<and>
   Execute (NewRetryExecutor exact_ops (fixed_options 0)) always_fails 0 =
     (Return (Some (JobError ''simulated error'')), 1,
      [Invoke (Return (Some (JobError ''simulated error'')))]) \<and>
   ExecuteWithCallback (NewRetryExecutor exact_ops (fixed_options 0)) always_fails
       (Some (\<lambda>attempt err d calls. calls + 100)) 0 =
     (Return (Some (JobError ''simulated error'')), 1,
      [Invoke (Return (Some (JobError ''simulated error'')))])"
proof -
  let ?r = "NewRetryExecutor exact_ops (fixed_options 0)"
  have h: "MaxRetries (options ?r) \<le> 0 \<or> BackoffStrategy (options ?r) = BackoffNone"
    by (simp add: NewRetryExecutor_def fixed_options_def)
  from no_retry_runs_once [OF h, of always_fails 0 "Some (\<lambda>attempt err d calls. calls + 100)"] h
  show ?thesis by (simp add: always_fails_def)
qed

text \<open>
  Claim C10. \<^verbatim>\<open>ExecuteWithCallback\<close> with a \<^verbatim>\<open>nil\<close> callback and \<^verbatim>\<open>Execute\<close> give the same outcome,
  the same final state and the same events, for every executor, operation and state.
\<close>

theorem nil_callback_is_Execute:
  "ExecuteWithCallback r fn None s = Execute r fn s"
  by (simp add: ExecuteWithCallback_def Execute_def ExecuteWithCallback_loop_None)

theorem nil_callback_is_Execute_witness:
  "ExecuteWithCallback (NewRetryExecutor exact_ops (fixed_options 3)) fails_twice None 0 =
     Execute (NewRetryExecutor exact_ops (fixed_options 3)) fails_twice 0 \<and>
   Execute (NewRetryExecutor exact_ops (fixed_options 3)) fails_twice 0 =
     (Return None, 3,
      [Invoke (Return (Some (JobError ''simulated error''))),
       BackoffNext 1 10000000, Sleep 10000000,
       Invoke (Return (Some (JobError ''simulated error''))),
       BackoffNext 2 10000000, Sleep 10000000,
       Invoke (Return None)])"
proof -
  have "Execute (NewRetryExecutor exact_ops (fixed_options 3)) fails_twice 0 =
     (Return None, 3,
      [Invoke (Return (Some (JobError ''simulated error''))),
       BackoffNext 1 10000000, Sleep 10000000,
       Invoke (Return (Some (JobError ''simulated error''))),
       BackoffNext 2 10000000, Sleep 10000000,
       Invoke (Return None)])"
    by (simp add: Execute_def NewRetryExecutor_def fixed_options_def NewBackoff_def
        BackoffFixed_def BackoffNone_def BackoffExponential_def fails_twice_def Execute_wait_def
        sleep_if_positive_def fixedBackoff_Next_def Execute_loop.simps)
  with nil_callback_is_Execute [of "NewRetryExecutor exact_ops (fixed_options 3)" fails_twice 0]
  show ?thesis by simp
qed

section \<open>The exponential backoff at attempts below 1\<close>

text \<open>
  Claim C8, as amended. For every attempt \<open>\<le> 0\<close>, \<^verbatim>\<open>exponentialBackoff.Next\<close> returns
  \<^verbatim>\<open>InitialBackoff\<close> as it is, whatever the float64 operations do: no product is computed and
  the cap \<^verbatim>\<open>MaxBackoff\<close> is not applied. The result is \<open>min(InitialBackoff, MaxBackoff)\<close>, the
  value the claim gives, exactly when \<^verbatim>\<open>InitialBackoff \<le> MaxBackoff\<close>.
\<close>

theorem nonpositive_attempt_uncapped:
  assumes "attempt \<le> 0"
  shows "exponentialBackoff_Next F b attempt = initial b \<and>
         (exponentialBackoff_Next F b attempt = min (initial b) (max_b b) \<longleftrightarrow>
            initial b \<le> max_b b)"
  using assms by (auto simp: exponentialBackoff_Next_def)

theorem nonpositive_attempt_uncapped_witness:
  "(- 3 :: int) \<le> 0 \<and>
   exponentialBackoff_Next exact_ops capped_below_initial (- 3) = 10 \<and>
   \<not> initial capped_below_initial \<le> max_b capped_below_initial"
  using nonpositive_attempt_uncapped [of "- 3" exact_ops capped_below_initial]
  by (simp add: capped_below_initial_def)

text \<open>
  The claim as stated fails for an initial delay of 10 and a cap of 5: attempt 0 yields 10,
  while attempt 1 yields the cap 5, which is also \<open>min(10 * 2^0, 5)\<close>.
\<close>

theorem nonpositive_attempt_counterexample:
  "exponentialBackoff_Next exact_ops capped_below_initial 0 = 10 \<and>
   exponentialBackoff_Next exact_ops capped_below_initial 1 = 5 \<and>
   min (of_int (initial capped_below_initial) * multiplier capped_below_initial ^ 0)
       (of_int (max_b capped_below_initial)) = (5 :: rat)"
  by (simp add: exponentialBackoff_Next_def capped_below_initial_def exact_ops_def)

section \<open>Properties of the execution wrapper\<close>

lemma wrapJob_skips:
  "SkipIfStillRunning (config s) \<Longrightarrow> running (heap s entry) \<Longrightarrow>
     wrapJob F entry now s = (logger_call DEBUG ''job skipped, still running'' s, [], None)"
  by (simp add: wrapJob_def)

lemma Invoke_in_invocations: "Invoke x \<in> set tr \<Longrightarrow> x \<in> set (invocations tr)"
  by (induction tr rule: invocations.induct) auto

text \<open>What the executor leaves alone.\<close>

lemma ExecuteWithCallback_loop_preserves:
  fixes fn :: "('s, 'e, 'p) operation"
  shows "ExecuteWithCallback_loop r fn onRetry attempt lastErr s = (res, s', tr) \<Longrightarrow>
    \<forall>s res s'. fn s = (res, s') \<longrightarrow> f s' = f s \<Longrightarrow>
    \<forall>cb a e d s. onRetry = Some cb \<longrightarrow> f (cb a e d s) = f s \<Longrightarrow>
    f s' = f s"
proof (induction r fn onRetry attempt lastErr s arbitrary: res s' tr
    rule: ExecuteWithCallback_loop.induct)
  case (1 r fn onRetry attempt lastErr s)
  note unfold = ExecuteWithCallback_loop.simps [of r fn onRetry attempt lastErr s]
  note loop = "1.prems"(1) and fn_keeps = "1.prems"(2) and cb_keeps = "1.prems"(3)
  show ?case
  proof (cases "attempt \<le> MaxRetries (options r)")
    case False
    with loop show ?thesis by (simp add: unfold)
  next
    case True
    obtain s1 and pre :: "('e, 'p) event list"
      where w: "ExecuteWithCallback_wait r onRetry attempt lastErr s = (s1, pre)"
      by (cases "ExecuteWithCallback_wait r onRetry attempt lastErr s :: 's \<times> ('e, 'p) event list")
    have s1: "f s1 = f s"
      using w cb_keeps
      by (auto simp: ExecuteWithCallback_wait_def Let_def split: if_splits option.splits)
    obtain out s2 where fn: "fn s1 = (out, s2)" by (cases "fn s1")
    have s2: "f s2 = f s" using fn_keeps fn s1 by simp
    show ?thesis
    proof (cases out)
      case (Panic p)
      with loop True w fn s2 show ?thesis by (auto simp: unfold)
    next
      case (Return x)
      show ?thesis
      proof (cases x)
        case None
        with loop True w fn s2 Return show ?thesis by (auto simp: unfold)
      next
        case (Some e)
        obtain res2 s3 tr2 where
          rec: "ExecuteWithCallback_loop r fn onRetry (attempt + 1) (Some e) s2 = (res2, s3, tr2)"
          by (cases "ExecuteWithCallback_loop r fn onRetry (attempt + 1) (Some e) s2")
        have fn': "(Return (Some e), s2) = fn s1"
          using fn Return Some by simp
        have "f s3 = f s2"
          by (rule "1.IH" [OF True w [symmetric] fn' refl refl rec fn_keeps cb_keeps])
        moreover from loop True w fn Return Some rec have "s' = s3"
          by (auto simp: unfold)
        ultimately show ?thesis using s2 by simp
      qed
    qed
  qed
qed

lemma ExecuteWithCallback_preserves:
  fixes fn :: "('s, 'e, 'p) operation"
  assumes "ExecuteWithCallback r fn onRetry s = (res, s', tr)"
    and "\<forall>s res s'. fn s = (res, s') \<longrightarrow> f s' = f s"
    and "\<forall>cb a e d s. onRetry = Some cb \<longrightarrow> f (cb a e d s) = f s"
  shows "f s' = f s"
proof (cases "MaxRetries (options r) \<le> 0 \<or> BackoffStrategy (options r) = BackoffNone")
  case True
  with assms(1,2) show ?thesis
    by (auto simp: ExecuteWithCallback_def split: prod.splits)
next
  case False
  with assms(1) have "ExecuteWithCallback_loop r fn onRetry 0 None s = (res, s', tr)"
    by (simp add: ExecuteWithCallback_def)
  from ExecuteWithCallback_loop_preserves [OF this assms(2,3)] show ?thesis .
qed

lemma ExecuteWithCallback_panic_is_outcome:
  fixes fn :: "('s, 'e, 'p) operation"
  assumes E: "ExecuteWithCallback r fn onRetry s = (res, s', tr)"
    and p: "Invoke (Panic p) \<in> set tr"
  shows "res = Panic p"
proof (cases "MaxRetries (options r) \<le> 0 \<or> BackoffStrategy (options r) = BackoffNone")
  case True
  with E p show ?thesis
    by (auto simp: ExecuteWithCallback_def split: prod.splits)
next
  case False
  with E have loop: "ExecuteWithCallback_loop r fn onRetry 0 None s = (res, s', tr)"
    by (simp add: ExecuteWithCallback_def)
  from False have "0 \<le> MaxRetries (options r)" by simp
  from ExecuteWithCallback_loop_attempts [OF this loop]
  have ne: "invocations tr \<noteq> []"
    and errs: "\<forall>x \<in> set (butlast (invocations tr)). is_error x"
    and res: "res = last (invocations tr)"
    by simp_all
  have "Panic p \<in> set (invocations tr)"
    using p by (rule Invoke_in_invocations)
  then have "Panic p \<in> set (butlast (invocations tr) @ [last (invocations tr)])"
    using ne by simp
  then have "Panic p = last (invocations tr) \<or> Panic p \<in> set (butlast (invocations tr))"
    by auto
  moreover have "\<not> is_error (Panic p :: ('e, 'p) outcome)" by simp
  ultimately show ?thesis using errs res by metis
qed

lemma job_operation_keeps:
  "job_operation entry s = (res, s') \<Longrightarrow>
     heap s' = heap s \<and> config s' = config s \<and> logger s' = logger s \<and> pool s' = pool s \<and>
     jobs s' = jobs s \<and> running_s s' = running_s s \<and> cron_running s' = cron_running s"
  by (auto simp: job_operation_def call_user_def split: option.splits prod.splits)

lemma retry_callback_keeps:
  "heap (retry_callback a e d s) = heap s \<and> config (retry_callback a e d s) = config s \<and>
   user (retry_callback a e d s) = user s"
  by (simp add: retry_callback_def logger_call_def)

lemma wrapJob_execute_keeps:
  assumes "wrapJob_execute F entry s = (res, s', tr)"
  shows "heap s' = heap s \<and> config s' = config s"
proof -
  let ?f = "\<lambda>s :: ('a, 'b) world. (heap s, config s)"
  from assms have E: "ExecuteWithCallback (NewRetryExecutor F (options_e (heap s entry)))
      (job_operation entry) (Some retry_callback) s = (res, s', tr)"
    by (simp add: wrapJob_execute_def)
  have "?f s' = ?f s"
  proof (rule ExecuteWithCallback_preserves [OF E])
    show "\<forall>s res s'. job_operation entry s = (res, s') \<longrightarrow> ?f s' = ?f s"
      using job_operation_keeps by blast
    show "\<forall>cb a e d s. Some retry_callback = Some cb \<longrightarrow> ?f (cb a e d s) = ?f s"
      using retry_callback_keeps by auto
  qed
  then show ?thesis by simp
qed

lemma ExecuteWithCallback_last_event:
  fixes fn :: "('s, 'e, 'p) operation"
  assumes "ExecuteWithCallback r fn onRetry s = (res, s', tr)"
  shows "last tr = Invoke res"
proof (cases "MaxRetries (options r) \<le> 0 \<or> BackoffStrategy (options r) = BackoffNone")
  case True
  with assms show ?thesis
    by (auto simp: ExecuteWithCallback_def split: prod.splits)
next
  case False
  with assms have loop: "ExecuteWithCallback_loop r fn onRetry 0 None s = (res, s', tr)"
    by (simp add: ExecuteWithCallback_def)
  from False have "0 \<le> MaxRetries (options r)" by simp
  from ExecuteWithCallback_loop_last_event [OF this loop] show ?thesis by simp
qed

lemma wrapJob_start_entry:
  "heap (wrapJob_start entry now s) entry = (heap s entry)\<lparr> running := True, lastRun := now \<rparr> \<and>
   config (wrapJob_start entry now s) = config s \<and>
   user (wrapJob_start entry now s) = user s"
  by (simp add: wrapJob_start_def update_entry_def logger_call_def Let_def)

lemma deferred_stats_entry:
  "heap (deferred_stats entry jobErr s) entry =
     (heap s entry)\<lparr> runCount := runCount (heap s entry) + 1,
       failCount := (if jobErr \<noteq> None then failCount (heap s entry) + 1
                     else failCount (heap s entry)) \<rparr>"
  by (simp add: deferred_stats_def update_entry_def logger_call_def Let_def)

lemma wrapJob_failed_run:
  assumes run: "\<not> (SkipIfStillRunning (config s) \<and> running (heap s entry))"
    and ex: "wrapJob_execute F entry (wrapJob_start entry now s) = (res, s4, tr)"
    and rec: "deferred_recover res s4 = (Some e, s5, unwinding)"
    and s5: "heap s5 = heap s4"
  shows "wrapJob F entry now s =
           (update_entry entry (\<lambda>e. e\<lparr> running := False \<rparr>) (deferred_stats entry (Some e) s5),
            tr, unwinding) \<and>
         heap (fst (wrapJob F entry now s)) entry =
           (heap s entry)\<lparr> runCount := runCount (heap s entry) + 1,
             failCount := failCount (heap s entry) + 1, running := False, lastRun := now \<rparr>"
proof -
  have w: "wrapJob F entry now s =
      (update_entry entry (\<lambda>e. e\<lparr> running := False \<rparr>) (deferred_stats entry (Some e) s5),
       tr, unwinding)"
    using run ex rec by (auto simp: wrapJob_def Let_def)
  have "heap s4 = heap (wrapJob_start entry now s)"
    using wrapJob_execute_keeps [OF ex] by simp
  then have "heap s5 entry = (heap s entry)\<lparr> running := True, lastRun := now \<rparr>"
    using s5 wrapJob_start_entry [of entry now s] by simp
  then have "heap (update_entry entry (\<lambda>e. e\<lparr> running := False \<rparr>)
      (deferred_stats entry (Some e) s5)) entry =
      (heap s entry)\<lparr> runCount := runCount (heap s entry) + 1,
             failCount := failCount (heap s entry) + 1, running := False, lastRun := now \<rparr>"
    by (simp add: update_entry_def deferred_stats_entry)
  with w show ?thesis by simp
qed

text \<open>
  Claim C4. When \<^verbatim>\<open>SkipIfStillRunning\<close> is enabled and the entry's \<^verbatim>\<open>running\<close> flag is set, a run of
  the wrapper only adds the debug message to the log: \<^verbatim>\<open>runCount\<close>, \<^verbatim>\<open>failCount\<close>, \<^verbatim>\<open>lastRun\<close> and
  the flag of the entry, every other entry and the state of the user's code are as before, the
  user's job is not called and nothing panics.
\<close>

theorem skipped_firing_changes_nothing:
  assumes "SkipIfStillRunning (config s)" and "running (heap s entry)"
  shows "wrapJob F entry now s =
           (s\<lparr> logger := logger s @ [(DEBUG, ''job skipped, still running'')] \<rparr>, [], None) \<and>
         runCount (heap (fst (wrapJob F entry now s)) entry) = runCount (heap s entry) \<and>
         failCount (heap (fst (wrapJob F entry now s)) entry) = failCount (heap s entry) \<and>
         lastRun (heap (fst (wrapJob F entry now s)) entry) = lastRun (heap s entry) \<and>
         running (heap (fst (wrapJob F entry now s)) entry) = running (heap s entry) \<and>
         heap (fst (wrapJob F entry now s)) = heap s \<and>
         user (fst (wrapJob F entry now s)) = user s \<and>
         invocations (fst (snd (wrapJob F entry now s))) = []"
  using assms by (simp add: wrapJob_skips logger_call_def)

theorem skipped_firing_changes_nothing_witness:
  "SkipIfStillRunning (config busy_world) \<and>
   running (heap busy_world 0) \<and>
   user (fst (wrapJob exact_ops 0 7 busy_world)) = 0 \<and>
   runCount (heap (fst (wrapJob exact_ops 0 7 busy_world)) 0) = 0 \<and>
   failCount (heap (fst (wrapJob exact_ops 0 7 busy_world)) 0) = 0 \<and>
   lastRun (heap (fst (wrapJob exact_ops 0 7 busy_world)) 0) = 0 \<and>
   running (heap (fst (wrapJob exact_ops 0 7 busy_world)) 0) \<and>
   fst (snd (wrapJob exact_ops 0 7 busy_world)) = []"
proof -
  have h1: "SkipIfStillRunning (config busy_world)"
    by (simp add: busy_world_def example_world_def example_entry_def example_config_def
        fixed_options_def always_fails_def)
  have h2: "running (heap busy_world 0)"
    by (simp add: busy_world_def example_world_def example_entry_def example_config_def
        fixed_options_def always_fails_def)
  have v: "user busy_world = 0" "runCount (heap busy_world 0) = 0"
    "failCount (heap busy_world 0) = 0" "lastRun (heap busy_world 0) = 0"
    by (simp_all add: busy_world_def example_world_def example_entry_def example_config_def
        fixed_options_def always_fails_def)
  from skipped_firing_changes_nothing [OF h1 h2, of exact_ops 7] h1 h2 v
  show ?thesis by simp
qed

text \<open>
  Claim C5, as amended. With panic recovery enabled, when a call of the user's job panics with
  payload \<open>r\<close>, that call is the last event of the execution (the retry executor does not retry
  a panic), the panic does not leave the wrapper, \<^verbatim>\<open>jobErr\<close> becomes the error
  \<open>JobPanicked r\<close> carrying the payload, and the entry is counted as for an execution whose
  final outcome is a returned error: \<^verbatim>\<open>runCount\<close> and \<^verbatim>\<open>failCount\<close> each grow by one, the flag
  is cleared and \<^verbatim>\<open>lastRun\<close> is the start of this run.
\<close>

theorem panic_recorded_as_failure:
  assumes recovery: "Recovery (Middleware (config s))"
    and panic: "Invoke (Panic r) \<in> set (fst (snd (wrapJob F entry now s)))"
  shows "snd (snd (wrapJob F entry now s)) = None \<and>
         runCount (heap (fst (wrapJob F entry now s)) entry) = runCount (heap s entry) + 1 \<and>
         failCount (heap (fst (wrapJob F entry now s)) entry) = failCount (heap s entry) + 1 \<and>
         \<not> running (heap (fst (wrapJob F entry now s)) entry) \<and>
         heap (fst (wrapJob F entry now s)) entry =
           (heap s entry)\<lparr> runCount := runCount (heap s entry) + 1,
             failCount := failCount (heap s entry) + 1, running := False, lastRun := now \<rparr> \<and>
         last (fst (snd (wrapJob F entry now s))) = Invoke (Panic r) \<and>
         fst (wrapJob_execute F entry (wrapJob_start entry now s)) = Panic r \<and>
         fst (deferred_recover (Panic r)
           (fst (snd (wrapJob_execute F entry (wrapJob_start entry now s))))) =
           Some (JobPanicked r) \<and>
         (\<forall>s2 e. \<not> (SkipIfStillRunning (config s2) \<and> running (heap s2 entry)) \<and>
            fst (wrapJob_execute F entry (wrapJob_start entry now s2)) = Return (Some e) \<longrightarrow>
            snd (snd (wrapJob F entry now s2)) = None \<and>
            heap (fst (wrapJob F entry now s2)) entry =
              (heap s2 entry)\<lparr> runCount := runCount (heap s2 entry) + 1,
                failCount := failCount (heap s2 entry) + 1, running := False, lastRun := now \<rparr>)"
proof -
  have run: "\<not> (SkipIfStillRunning (config s) \<and> running (heap s entry))"
  proof
    assume "SkipIfStillRunning (config s) \<and> running (heap s entry)"
    then have "fst (snd (wrapJob F entry now s)) = []" by (simp add: wrapJob_skips)
    with panic show False by simp
  qed
  obtain res s4 tr where ex: "wrapJob_execute F entry (wrapJob_start entry now s) = (res, s4, tr)"
    by (cases "wrapJob_execute F entry (wrapJob_start entry now s)")
  have tr: "fst (snd (wrapJob F entry now s)) = tr"
    using run ex by (auto simp: wrapJob_def Let_def split: prod.splits)
  have res: "res = Panic r"
  proof (rule ExecuteWithCallback_panic_is_outcome)
    show "ExecuteWithCallback (NewRetryExecutor F (options_e (heap (wrapJob_start entry now s) entry)))
        (job_operation entry) (Some retry_callback) (wrapJob_start entry now s) = (res, s4, tr)"
      using ex by (simp add: wrapJob_execute_def)
    show "Invoke (Panic r) \<in> set tr" using panic tr by simp
  qed
  have cfg: "config s4 = config s"
    using wrapJob_execute_keeps [OF ex] wrapJob_start_entry [of entry now s] by simp
  have rec: "deferred_recover res s4 =
      (Some (JobPanicked r), logger_call ERROR ''job panicked'' s4, None)"
    using res cfg recovery by (simp add: deferred_recover_def)
  have "heap (logger_call ERROR ''job panicked'' s4) = heap s4" by (simp add: logger_call_def)
  note failed = wrapJob_failed_run [OF run ex rec this]
  have A: "snd (snd (wrapJob F entry now s)) = None"
    using failed [THEN conjunct1] by simp
  have B: "heap (fst (wrapJob F entry now s)) entry =
           (heap s entry)\<lparr> runCount := runCount (heap s entry) + 1,
             failCount := failCount (heap s entry) + 1, running := False, lastRun := now \<rparr>"
    by (rule failed [THEN conjunct2])
  have C: "fst (wrapJob_execute F entry (wrapJob_start entry now s)) = Panic r"
    using ex res by simp
  have L: "last (fst (snd (wrapJob F entry now s))) = Invoke (Panic r)"
  proof -
    have "last tr = Invoke res"
      using ex by (auto simp: wrapJob_execute_def dest: ExecuteWithCallback_last_event)
    with tr res show ?thesis by simp
  qed
  have D: "fst (deferred_recover (Panic r)
           (fst (snd (wrapJob_execute F entry (wrapJob_start entry now s))))) =
           Some (JobPanicked r)"
    using ex rec res by simp
  have E: "snd (snd (wrapJob F entry now s2)) = None \<and>
      heap (fst (wrapJob F entry now s2)) entry =
        (heap s2 entry)\<lparr> runCount := runCount (heap s2 entry) + 1,
          failCount := failCount (heap s2 entry) + 1, running := False, lastRun := now \<rparr>"
    if run2: "\<not> (SkipIfStillRunning (config s2) \<and> running (heap s2 entry))"
      and ret: "fst (wrapJob_execute F entry (wrapJob_start entry now s2)) = Return (Some e)"
    for s2 e
  proof -
    obtain t4 tr2 where
      ex2: "wrapJob_execute F entry (wrapJob_start entry now s2) = (Return (Some e), t4, tr2)"
      using ret by (cases "wrapJob_execute F entry (wrapJob_start entry now s2)") auto
    have rec2: "deferred_recover (Return (Some e)) t4 = (Some e, t4, None)"
      by (simp add: deferred_recover_def)
    note failed2 = wrapJob_failed_run [OF run2 ex2 rec2 refl]
    show ?thesis
      using failed2 [THEN conjunct1] failed2 [THEN conjunct2] by simp
  qed
  have B1: "runCount (heap (fst (wrapJob F entry now s)) entry) = runCount (heap s entry) + 1"
    and B2: "failCount (heap (fst (wrapJob F entry now s)) entry) = failCount (heap s entry) + 1"
    and B3: "\<not> running (heap (fst (wrapJob F entry now s)) entry)"
    by (simp_all add: B)
  from A B1 B2 B3 B L C D E show ?thesis by blast
qed

theorem panic_recorded_as_failure_witness:
  "Recovery (Middleware (config panicking_world)) \<and>
   Invoke (Panic ''test panic'') \<in> set (fst (snd (wrapJob exact_ops 0 7 panicking_world))) \<and>
   fst (snd (wrapJob exact_ops 0 7 panicking_world)) = [Invoke (Panic ''test panic'')] \<and>
   snd (snd (wrapJob exact_ops 0 7 panicking_world)) = None \<and>
   runCount (heap (fst (wrapJob exact_ops 0 7 panicking_world)) 0) = 1 \<and>
   failCount (heap (fst (wrapJob exact_ops 0 7 panicking_world)) 0) = 1 \<and>
   \<not> running (heap (fst (wrapJob exact_ops 0 7 panicking_world)) 0)"
proof -
  have h1: "Recovery (Middleware (config panicking_world))"
    by (simp add: panicking_world_def example_world_def example_entry_def example_config_def
        fixed_options_def panics_def)
  have tr: "fst (snd (wrapJob exact_ops 0 7 panicking_world)) = [Invoke (Panic ''test panic'')]"
    by (simp add: panicking_world_def example_world_def example_entry_def example_config_def
        fixed_options_def panics_def wrapJob_def wrapJob_start_def wrapJob_execute_def
        deferred_recover_def deferred_stats_def update_entry_def logger_call_def job_operation_def
        call_user_def retry_callback_def ExecuteWithCallback_def ExecuteWithCallback_loop.simps
        ExecuteWithCallback_wait_def NewRetryExecutor_def NewBackoff_def BackoffFixed_def
        BackoffNone_def BackoffExponential_def fixedBackoff_Next_def sleep_if_positive_def Let_def)
  then have h2:
    "Invoke (Panic ''test panic'') \<in> set (fst (snd (wrapJob exact_ops 0 7 panicking_world)))"
    by simp
  have before: "runCount (heap panicking_world 0) = 0" "failCount (heap panicking_world 0) = 0"
    by (simp_all add: panicking_world_def example_world_def example_entry_def example_config_def
        fixed_options_def panics_def)
  note T = panic_recorded_as_failure [OF h1 h2]
  have a: "snd (snd (wrapJob exact_ops 0 7 panicking_world)) = None"
    by (rule T [THEN conjunct1])
  have b: "runCount (heap (fst (wrapJob exact_ops 0 7 panicking_world)) 0) = 1"
    using T [THEN conjunct2, THEN conjunct1] before by simp
  have c: "failCount (heap (fst (wrapJob exact_ops 0 7 panicking_world)) 0) = 1"
    using T [THEN conjunct2, THEN conjunct2, THEN conjunct1] before by simp
  have d: "\<not> running (heap (fst (wrapJob exact_ops 0 7 panicking_world)) 0)"
    by (rule T [THEN conjunct2, THEN conjunct2, THEN conjunct2, THEN conjunct1])
  from h1 h2 tr a b c d show ?thesis by blast
qed

text \<open>
  The claim as stated fails for retries: with three retries allowed, a job that returns an
  error at its first call is called again and ends in success with \<^verbatim>\<open>failCount\<close> 0, while a job
  that panics at its first call is not called again and ends with \<^verbatim>\<open>failCount\<close> 1.
\<close>

theorem panic_not_retried_counterexample:
  "MaxRetries (options_e (heap panics_first_world 0)) = 3 \<and>
   invocations (fst (snd (wrapJob exact_ops 0 7 panics_first_world))) = [Panic ''test panic''] \<and>
   failCount (heap (fst (wrapJob exact_ops 0 7 panics_first_world)) 0) = 1 \<and>
   invocations (fst (snd (wrapJob exact_ops 0 7 fails_first_world))) =
     [Return (Some (JobError ''simulated error'')), Return None] \<and>
   failCount (heap (fst (wrapJob exact_ops 0 7 fails_first_world)) 0) = 0"
  by (simp add: panics_first_world_def fails_first_world_def example_world_def example_entry_def
      example_config_def fixed_options_def panics_first_def fails_first_def wrapJob_def
      wrapJob_start_def wrapJob_execute_def deferred_recover_def deferred_stats_def
      update_entry_def logger_call_def job_operation_def call_user_def retry_callback_def
      ExecuteWithCallback_def ExecuteWithCallback_loop.simps ExecuteWithCallback_wait_def
      NewRetryExecutor_def NewBackoff_def BackoffFixed_def BackoffNone_def BackoffExponential_def
      fixedBackoff_Next_def sleep_if_positive_def Let_def)

section \<open>Properties of \<^verbatim>\<open>RunNow\<close>\<close>

text \<open>
  Claim C6, as amended. \<^verbatim>\<open>RunNow(id)\<close> returns an error, the not-found error of \<open>id\<close>, exactly
  when \<open>id\<close> is not in \<^verbatim>\<open>jobs\<close>, and then changes nothing. For a registered \<open>id\<close> it returns \<^verbatim>\<open>nil\<close>
  and submits the wrapped execution of the entry to the pool, whether the entry is running or
  not. When \<^verbatim>\<open>SkipIfStillRunning\<close> is enabled and the flag of the entry is set when the submitted
  firing runs, the firing is dropped: only the debug message is logged.
\<close>

theorem RunNow_fails_iff_unknown:
  "(fst (RunNow jid s) \<noteq> None \<longleftrightarrow> jobs s jid = None) \<and>
   (jobs s jid = None \<longrightarrow> RunNow jid s = (Some (JobNotFound jid), s)) \<and>
   (\<forall>entry. jobs s jid = Some entry \<longrightarrow>
      RunNow jid s = (None, s\<lparr> pool := pool s @ [entry] \<rparr>) \<and>
      (SkipIfStillRunning (config s) \<and> running (heap s entry) \<and> pool s = [] \<longrightarrow>
         run_submitted F now (snd (RunNow jid s)) =
           (s\<lparr> logger := logger s @ [(DEBUG, ''job skipped, still running'')] \<rparr>, [], None)) \<and>
      (\<forall>s2. SkipIfStillRunning (config s2) \<and> running (heap s2 entry) \<longrightarrow>
         wrapJob F entry now s2 =
           (s2\<lparr> logger := logger s2 @ [(DEBUG, ''job skipped, still running'')] \<rparr>, [], None)))"
proof -
  have A: "fst (RunNow jid s) \<noteq> None \<longleftrightarrow> jobs s jid = None"
    by (simp add: RunNow_def split: option.splits)
  have B: "jobs s jid = None \<longrightarrow> RunNow jid s = (Some (JobNotFound jid), s)"
    by (simp add: RunNow_def)
  have C: "RunNow jid s = (None, s\<lparr> pool := pool s @ [entry] \<rparr>)"
    if "jobs s jid = Some entry" for entry
    using that by (simp add: RunNow_def Submit_def)
  have D: "run_submitted F now (snd (RunNow jid s)) =
           (s\<lparr> logger := logger s @ [(DEBUG, ''job skipped, still running'')] \<rparr>, [], None)"
    if "jobs s jid = Some entry" and "SkipIfStillRunning (config s)"
      and "running (heap s entry)" and "pool s = []" for entry
  proof -
    have "s\<lparr> pool := [] \<rparr> = s" using that(4) by (cases s) simp
    then show ?thesis
      using that by (simp add: C run_submitted_def wrapJob_skips logger_call_def)
  qed
  have E: "wrapJob F entry now s2 =
           (s2\<lparr> logger := logger s2 @ [(DEBUG, ''job skipped, still running'')] \<rparr>, [], None)"
    if "SkipIfStillRunning (config s2)" and "running (heap s2 entry)" for entry s2
    using that by (simp add: wrapJob_skips logger_call_def)
  from A B C D E show ?thesis by blast
qed

theorem RunNow_fails_iff_unknown_witness:
  "fst (RunNow 999 busy_world) = Some (JobNotFound 999) \<and>
   jobs busy_world 999 = None \<and>
   jobs busy_world 1 = Some 0 \<and>
   fst (RunNow 1 busy_world) = None \<and>
   pool (snd (RunNow 1 busy_world)) = [0] \<and>
   SkipIfStillRunning (config busy_world) \<and> running (heap busy_world 0) \<and>
   pool busy_world = [] \<and>
   user (fst (run_submitted exact_ops 7 (snd (RunNow 1 busy_world)))) = 0 \<and>
   runCount (heap (fst (run_submitted exact_ops 7 (snd (RunNow 1 busy_world)))) 0) = 0 \<and>
   fst (snd (run_submitted exact_ops 7 (snd (RunNow 1 busy_world)))) = []"
proof -
  have j: "jobs busy_world 999 = None" "jobs busy_world 1 = Some 0"
    by (simp_all add: busy_world_def example_world_def example_entry_def example_config_def
        fixed_options_def always_fails_def)
  have h: "SkipIfStillRunning (config busy_world)" "running (heap busy_world 0)"
    "pool busy_world = []"
    by (simp_all add: busy_world_def example_world_def example_entry_def example_config_def
        fixed_options_def always_fails_def)
  have v: "user busy_world = 0" "runCount (heap busy_world 0) = 0"
    by (simp_all add: busy_world_def example_world_def example_entry_def example_config_def
        fixed_options_def always_fails_def)
  note T = RunNow_fails_iff_unknown [of _ busy_world exact_ops 7]
  have "fst (RunNow 999 busy_world) = Some (JobNotFound 999)"
    using T [of 999] j by simp
  moreover have "RunNow 1 busy_world = (None, busy_world\<lparr> pool := pool busy_world @ [0] \<rparr>)"
    using T [of 1] j by blast
  moreover have "run_submitted exact_ops 7 (snd (RunNow 1 busy_world)) =
      (busy_world\<lparr> logger := logger busy_world @ [(DEBUG, ''job skipped, still running'')] \<rparr>,
       [], None)"
    using T [of 1] j h by blast
  ultimately show ?thesis using j h v by simp
qed

text \<open>
  The claim as stated fails when \<^verbatim>\<open>SkipIfStillRunning\<close> is disabled: \<^verbatim>\<open>RunNow\<close> returns \<^verbatim>\<open>nil\<close> for
  the running job, and the submitted firing is not dropped but calls the user's job and counts
  a run.
\<close>

theorem RunNow_not_dropped_counterexample:
  "jobs busy_world_no_skip 1 = Some 0 \<and>
   running (heap busy_world_no_skip 0) \<and>
   fst (RunNow 1 busy_world_no_skip) = None \<and>
   invocations (fst (snd (run_submitted exact_ops 7 (snd (RunNow 1 busy_world_no_skip))))) =
     [Return (Some (JobError ''simulated error''))] \<and>
   user (fst (run_submitted exact_ops 7 (snd (RunNow 1 busy_world_no_skip)))) = 1 \<and>
   runCount (heap (fst (run_submitted exact_ops 7 (snd (RunNow 1 busy_world_no_skip)))) 0) = 1"
  by (simp add: busy_world_no_skip_def example_world_def example_entry_def example_config_def
      fixed_options_def always_fails_def RunNow_def Submit_def run_submitted_def wrapJob_def
      wrapJob_start_def wrapJob_execute_def deferred_recover_def deferred_stats_def
      update_entry_def logger_call_def job_operation_def call_user_def retry_callback_def
      ExecuteWithCallback_def ExecuteWithCallback_loop.simps ExecuteWithCallback_wait_def
      NewRetryExecutor_def NewBackoff_def BackoffFixed_def BackoffNone_def BackoffExponential_def
      fixedBackoff_Next_def sleep_if_positive_def Let_def)

text \<open>
  Claim C9, as amended. \<^verbatim>\<open>RunNow\<close> does not consult the lifecycle state. After \<^verbatim>\<open>Stop()\<close> the
  scheduler is not running, and \<^verbatim>\<open>RunNow(id)\<close> returns what it returns before \<^verbatim>\<open>Stop()\<close>: for a
  registered \<open>id\<close> it returns \<^verbatim>\<open>nil\<close> and submits the wrapped execution to the pool, which
  \<^verbatim>\<open>Stop()\<close> leaves as it is.
\<close>

theorem RunNow_ignores_lifecycle:
  "\<not> IsRunning (Stop s) \<and>
   fst (RunNow jid (Stop s)) = fst (RunNow jid s) \<and>
   (\<forall>entry. jobs s jid = Some entry \<longrightarrow>
      RunNow jid (Stop s) = (None, (Stop s)\<lparr> pool := pool (Stop s) @ [entry] \<rparr>) \<and>
      pool (Stop s) = pool s)"
  by (auto simp: RunNow_def Stop_def IsRunning_def Submit_def logger_call_def split: option.splits)

theorem RunNow_ignores_lifecycle_witness:
  "jobs idle_world 1 = Some 0 \<and>
   \<not> IsRunning (Stop idle_world) \<and>
   fst (RunNow 1 (Stop idle_world)) = None \<and>
   pool (snd (RunNow 1 (Stop idle_world))) = [0]"
proof -
  have j: "jobs idle_world 1 = Some 0" "pool idle_world = []"
    by (simp_all add: idle_world_def example_world_def example_entry_def example_config_def
        fixed_options_def always_fails_def)
  from RunNow_ignores_lifecycle [of idle_world 1] j show ?thesis by auto
qed

text \<open>
  The claim as stated fails on the stopped scheduler with the job of id 1: \<^verbatim>\<open>RunNow(1)\<close>
  returns \<^verbatim>\<open>nil\<close>, the firing is in the pool, and a worker of the pool runs the job.
\<close>

theorem RunNow_after_Stop_counterexample:
  "jobs idle_world 1 = Some 0 \<and>
   \<not> IsRunning (Stop idle_world) \<and>
   fst (RunNow 1 (Stop idle_world)) = None \<and>
   pool (snd (RunNow 1 (Stop idle_world))) = [0] \<and>
   user (fst (run_submitted exact_ops 7 (snd (RunNow 1 (Stop idle_world))))) = 1 \<and>
   runCount (heap (fst (run_submitted exact_ops 7 (snd (RunNow 1 (Stop idle_world))))) 0) = 1"
  by (simp add: idle_world_def example_world_def example_entry_def example_config_def
      fixed_options_def always_fails_def RunNow_def Stop_def IsRunning_def Submit_def
      run_submitted_def wrapJob_def wrapJob_start_def wrapJob_execute_def deferred_recover_def
      deferred_stats_def update_entry_def logger_call_def job_operation_def call_user_def
      retry_callback_def ExecuteWithCallback_def ExecuteWithCallback_loop.simps
      ExecuteWithCallback_wait_def NewRetryExecutor_def NewBackoff_def BackoffFixed_def
      BackoffNone_def BackoffExponential_def fixedBackoff_Next_def sleep_if_positive_def Let_def)

section \<open>Concurrent firings: the skip policy\<close>











text \<open>
  The hypothesis on the schedule is needed: with \<^verbatim>\<open>SkipIfStillRunning\<close> enabled, two firings
  that both make their check before either stores the flag both execute.
\<close>

lemma interleaved_checks_overlap:
  "phases (run True (initial_firings 2) [0, 1, 0, 1]) = [Executing, Executing]"
  by (simp add: initial_firings_def step_def eval_nat_numeral)

end
